theory Spec2Isabelle
  imports Main "HOL-Library.Sublist"
begin

section \<open>Go strings\<close>

text \<open>
  Every library function that \<^verbatim>\<open>parser_engine.go\<close> applies to a string
  (\<^verbatim>\<open>strings.TrimSpace\<close>, \<^verbatim>\<open>strings.Split\<close>, \<^verbatim>\<open>strings.ToLower\<close>, the
  \<^verbatim>\<open>regexp\<close> package) reads the string as the sequence of runes that UTF-8 decoding gives,
  an invalid byte being a unit of its own that is no space, no letter and no ASCII character.
  A string is therefore modelled as the list of these units, a rune being its code point.
  ASCII text, which is all the patterns of the program mention, is its own list of codes.
\<close>

type_synonym rune = nat
type_synonym gostring = "rune list"

definition str :: "string \<Rightarrow> gostring" where
  "str s = map of_char s"

abbreviation newline :: rune where
  "newline \<equiv> 10"

abbreviation backtick :: rune where
  "backtick \<equiv> 96"

text \<open>
  \<^verbatim>\<open>unicode.IsSpace\<close>: in Latin-1 the runes \<^verbatim>\<open>\t \n \v \f \r\<close>, the space, U+0085
  and U+00A0; beyond Latin-1 the runes with the Unicode property White\_Space, which are
  U+1680, U+2000 to U+200A, U+2028, U+2029, U+202F, U+205F and U+3000.
\<close>

definition isSpace :: "rune \<Rightarrow> bool" where
  "isSpace r \<longleftrightarrow>
     r \<in> {9, 10, 11, 12, 13, 32, 0x85, 0xA0, 0x1680, 0x2028, 0x2029, 0x202F, 0x205F, 0x3000}
     \<or> (0x2000 \<le> r \<and> r \<le> 0x200A)"

text \<open>\<^verbatim>\<open>strings.TrimSpace\<close>: all leading and trailing white space removed.\<close>

definition TrimSpace :: "gostring \<Rightarrow> gostring" where
  "TrimSpace s = rev (dropWhile isSpace (rev (dropWhile isSpace s)))"

text \<open>
  \<^verbatim>\<open>strings.Split(s, "\n")\<close>: the pieces between the newlines, at least one piece
  (the empty string splits into one empty piece). The result of the recursive call is
  therefore never empty, and the second branch of the case is there for totality only.
\<close>

fun SplitNL :: "gostring \<Rightarrow> gostring list" where
  "SplitNL [] = [[]]"
| "SplitNL (c # cs) =
     (if c = newline then [] # SplitNL cs
      else (case SplitNL cs of l # ls \<Rightarrow> (c # l) # ls | [] \<Rightarrow> [[c]]))"

text \<open>
  \<^verbatim>\<open>strings.ToLower\<close>, rune by rune. The runes whose lower case is an ASCII letter are
  \<^verbatim>\<open>A\<close> to \<^verbatim>\<open>Z\<close>, U+0130 (lower case \<^verbatim>\<open>i\<close>) and U+212A (lower case \<^verbatim>\<open>k\<close>); they are
  mapped as Go maps them. Every other rune lowers to a rune outside ASCII or to itself and
  is left as it is: the program only compares the lowered line with ASCII phrases, which
  cannot tell the difference.
\<close>

definition toLowerRune :: "rune \<Rightarrow> rune" where
  "toLowerRune r =
     (if 65 \<le> r \<and> r \<le> 90 then r + 32
      else if r = 0x130 then 105
      else if r = 0x212A then 107
      else r)"

definition ToLower :: "gostring \<Rightarrow> gostring" where
  "ToLower s = map toLowerRune s"

section \<open>The three regular expressions of \<^verbatim>\<open>sanitizeCommand\<close>\<close>

text \<open>
  Go's \<^verbatim>\<open>regexp\<close> returns the leftmost match and, among the matches that start there, the
  one a backtracking search finds first: alternatives in the order written, a greedy
  operator trying the longer choice first, a lazy one the shorter. Without the flag
  \<^verbatim>\<open>s\<close> the dot matches every rune but the newline; a negated class such as \<^verbatim>\<open>[^`]\<close>
  does match the newline. Each function below returns the text of capture group 1 of the
  first match, \<open>None\<close> when \<^verbatim>\<open>FindStringSubmatch\<close> returns \<^verbatim>\<open>nil\<close>.
\<close>

definition fence :: gostring where
  "fence = [backtick, backtick, backtick]"

text \<open>The tail \<^verbatim>\<open>\n?```\<close> of the fenced pattern matches at the front of \<open>s\<close>.\<close>

definition closeHere :: "gostring \<Rightarrow> bool" where
  "closeHere s \<longleftrightarrow> prefix (newline # fence) s \<or> prefix fence s"

text \<open>
  \<^verbatim>\<open>(.*?)\n?```\<close> from the front of \<open>s\<close>: the lazy group first tries to stop, and
  otherwise takes one more rune, which must not be a newline.
\<close>

fun lazyDot :: "gostring \<Rightarrow> gostring option" where
  "lazyDot [] = None"
| "lazyDot (c # cs) =
     (if closeHere (c # cs) then Some []
      else if c = newline then None
      else map_option ((#) c) (lazyDot cs))"

text \<open>\<^verbatim>\<open>\n?(.*?)\n?```\<close>: the greedy \<^verbatim>\<open>\n?\<close> takes a newline first and gives it back on failure.\<close>

definition afterTag :: "gostring \<Rightarrow> gostring option" where
  "afterTag s =
     (case s of
        c # cs \<Rightarrow>
          if c = newline
          then (case lazyDot cs of Some m \<Rightarrow> Some m | None \<Rightarrow> lazyDot s)
          else lazyDot s
      | [] \<Rightarrow> lazyDot s)"

definition tagged :: "gostring \<Rightarrow> gostring \<Rightarrow> gostring option" where
  "tagged tag s = (if prefix tag s then afterTag (drop (length tag) s) else None)"

fun firstSome :: "'a option list \<Rightarrow> 'a option" where
  "firstSome [] = None"
| "firstSome (Some x # _) = Some x"
| "firstSome (None # xs) = firstSome xs"

text \<open>
  The whole pattern \<^verbatim>\<open>```(?:bash|sh|zsh|shell)?\n?(.*?)\n?```\<close> anchored at the front of
  \<open>s\<close>: the optional tag is greedy, so the four tags are tried in their order before
  no tag at all.
\<close>

definition fencedHere :: "gostring \<Rightarrow> gostring option" where
  "fencedHere s =
     (if prefix fence s
      then (let t = drop 3 s in
            firstSome [tagged (str ''bash'') t, tagged (str ''sh'') t,
                       tagged (str ''zsh'') t, tagged (str ''shell'') t, afterTag t])
      else None)"

text \<open>\<^verbatim>\<open>backtickRegex.FindStringSubmatch(raw)\<close>: the leftmost start position that matches.\<close>

fun backtickRegex :: "gostring \<Rightarrow> gostring option" where
  "backtickRegex [] = fencedHere []"
| "backtickRegex (c # cs) =
     (case fencedHere (c # cs) of Some m \<Rightarrow> Some m | None \<Rightarrow> backtickRegex cs)"

text \<open>
  \<^verbatim>\<open>`([^`]+)`\<close> anchored at the front of \<open>s\<close>: a backtick, the longest run of runes
  other than the backtick, which must not be empty, and a backtick. A shorter run would
  end before a rune that is no backtick, so backtracking finds nothing more.
\<close>

definition inlineHere :: "gostring \<Rightarrow> gostring option" where
  "inlineHere s =
     (case s of
        [] \<Rightarrow> None
      | c # cs \<Rightarrow>
          if c = backtick \<and> takeWhile (\<lambda>r. r \<noteq> backtick) cs \<noteq> []
             \<and> dropWhile (\<lambda>r. r \<noteq> backtick) cs \<noteq> []
          then Some (takeWhile (\<lambda>r. r \<noteq> backtick) cs)
          else None)"

fun inlineRegex :: "gostring \<Rightarrow> gostring option" where
  "inlineRegex [] = inlineHere []"
| "inlineRegex (c # cs) =
     (case inlineHere (c # cs) of Some m \<Rightarrow> Some m | None \<Rightarrow> inlineRegex cs)"

text \<open>
  \<^verbatim>\<open>regexp.MustCompile(`^\$|^\s*neri>|^\s*Emiliano>`).ReplaceAllString(line, "")\<close>.
  Every alternative is anchored at the start of the text and takes at least one rune, so
  at most one match, at position 0, is replaced. \<^verbatim>\<open>\s\<close> is \<^verbatim>\<open>[\t\n\f\r ]\<close>.
\<close>

definition reSpace :: "rune \<Rightarrow> bool" where
  "reSpace r \<longleftrightarrow> r \<in> {9, 10, 12, 13, 32}"

definition stripPrompt :: "gostring \<Rightarrow> gostring" where
  "stripPrompt line =
     (if prefix (str ''$'') line then drop (length (str ''$'')) line
      else (let t = dropWhile reSpace line in
            if prefix (str ''neri>'') t then drop (length (str ''neri>'')) t
            else if prefix (str ''Emiliano>'') t then drop (length (str ''Emiliano>'')) t
            else line))"

section \<open>The command sanitizer\<close>

definition explanationPatterns :: "gostring list" where
  "explanationPatterns =
     [str ''para'', str ''usa'', str ''este'', str ''el comando'', str ''la respuesta'',
      str ''you can'', str ''this will'', str ''use'', str ''the command'']"

text \<open>
  Each pattern of the source is \<^verbatim>\<open>^\<close> followed by a literal phrase, so
  \<^verbatim>\<open>regexp.MatchString\<close> holds when the phrase is a prefix of the lowered line.
\<close>

definition looksLikeExplanation :: "gostring \<Rightarrow> bool" where
  "looksLikeExplanation line \<longleftrightarrow>
     list_ex (\<lambda>pattern. prefix pattern (ToLower line)) explanationPatterns"

fun firstNonEmpty :: "gostring list \<Rightarrow> gostring" where
  "firstNonEmpty [] = []"
| "firstNonEmpty (l # ls) =
     (let line = TrimSpace l in if line \<noteq> [] then line else firstNonEmpty ls)"

definition getFirstNonEmptyLine :: "gostring \<Rightarrow> gostring" where
  "getFirstNonEmptyLine text = firstNonEmpty (SplitNL text)"

text \<open>
  The loop of case 3: the first line that is not blank and does not look like an
  explanation is returned with its prompt marker removed; \<open>None\<close> when the loop ends
  without returning.
\<close>

fun scanLines :: "gostring list \<Rightarrow> gostring option" where
  "scanLines [] = None"
| "scanLines (l # ls) =
     (let line = TrimSpace l in
      if line \<noteq> [] \<and> \<not> looksLikeExplanation line
      then Some (TrimSpace (stripPrompt line))
      else scanLines ls)"

definition sanitizeCommand :: "gostring \<Rightarrow> gostring" where
  "sanitizeCommand raw0 =
     (let raw = TrimSpace raw0 in
      case backtickRegex raw of
        Some m \<Rightarrow> getFirstNonEmptyLine (TrimSpace m)
      | None \<Rightarrow>
          (case inlineRegex raw of
             Some m \<Rightarrow> TrimSpace m
           | None \<Rightarrow>
               (case scanLines (SplitNL raw) of
                  Some command \<Rightarrow> command
                | None \<Rightarrow> getFirstNonEmptyLine raw)))"

section \<open>Provider configuration\<close>

record AIConfig =
  Provider :: gostring
  BaseURL :: gostring
  APIKey :: gostring
  Model :: gostring

text \<open>
  The process environment is a finite map from names to values; \<^verbatim>\<open>os.Getenv\<close> returns
  the empty string for a name that is not set.
\<close>

type_synonym environ = "gostring \<rightharpoonup> gostring"

definition Getenv :: "environ \<Rightarrow> gostring \<Rightarrow> gostring" where
  "Getenv env key = (case env key of None \<Rightarrow> [] | Some v \<Rightarrow> v)"

definition getEnvOrDefault :: "environ \<Rightarrow> gostring \<Rightarrow> gostring \<Rightarrow> gostring" where
  "getEnvOrDefault env key defaultValue =
     (let v = Getenv env key in if v \<noteq> [] then v else defaultValue)"

definition getAIConfig :: "environ \<Rightarrow> AIConfig" where
  "getAIConfig env =
     (let config = \<lparr>Provider = getEnvOrDefault env (str ''AI_PROVIDER'') (str ''ollama''),
                     BaseURL = [], APIKey = [], Model = []\<rparr>
      in if Provider config = str ''openai'' then
           config\<lparr>BaseURL := getEnvOrDefault env (str ''AI_BASE_URL'')
                                (str ''https://api.openai.com/v1/chat/completions''),
                  APIKey := Getenv env (str ''AI_API_KEY''),
                  Model := getEnvOrDefault env (str ''AI_MODEL'') (str ''gpt-3.5-turbo'')\<rparr>
         else if Provider config = str ''gemini'' then
           config\<lparr>BaseURL := getEnvOrDefault env (str ''AI_BASE_URL'')
                                (str ''https://generativelanguage.googleapis.com/v1beta/models''),
                  APIKey := Getenv env (str ''AI_API_KEY''),
                  Model := getEnvOrDefault env (str ''AI_MODEL'') (str ''gemini-pro'')\<rparr>
         else if Provider config = str ''ollama'' then
           config\<lparr>BaseURL := getEnvOrDefault env (str ''AI_BASE_URL'')
                                (str ''http://localhost:11434/api/generate''),
                  Model := getEnvOrDefault env (str ''AI_MODEL'') (str ''llama2'')\<rparr>
         else config)"

section \<open>The call to the provider\<close>

text \<open>
  The payloads of the three providers, with the fields the source gives them: model,
  messages (role and content) and \<^verbatim>\<open>max_tokens\<close> for OpenAI; the text of the single
  part for Gemini; model, prompt and \<^verbatim>\<open>stream\<close> for Ollama.
\<close>

datatype payload =
    OpenAIPayload gostring "(gostring \<times> gostring) list" int
  | GeminiPayload gostring
  | OllamaPayload gostring gostring bool

record request =
  endpoint :: gostring
  headers :: "(gostring \<times> gostring) list"
  body :: gostring

text \<open>
  One constructor for each \<^verbatim>\<open>fmt.Errorf\<close> of \<^verbatim>\<open>callAIAPI\<close>, with the values the
  message is formatted from.
\<close>

datatype error =
    UnsupportedProvider gostring
  | MarshalError gostring
  | RequestError gostring
  | TransportError gostring
  | ReadError gostring
  | HTTPStatus int gostring
  | MalformedOpenAI gostring
  | MalformedGemini gostring
  | MalformedOllama gostring

text \<open>
  The standard library and the network are parameters of the model: \<^verbatim>\<open>json.Marshal\<close>,
  \<^verbatim>\<open>http.NewRequest\<close> (which gives the cause when it rejects the URL),
  \<^verbatim>\<open>client.Do\<close> followed by \<^verbatim>\<open>io.ReadAll\<close> (a transport failure, or the status code
  with the body or the cause of the failed read), and \<^verbatim>\<open>json.Unmarshal\<close> into each of
  the three response types: the contents of the choices, the texts of the parts of each
  candidate, the response field.
\<close>

record library =
  json_Marshal :: "payload \<Rightarrow> gostring + gostring"
  http_NewRequest :: "gostring \<Rightarrow> gostring option"
  client_Do :: "request \<Rightarrow> gostring + (int \<times> (gostring + gostring))"
  json_Unmarshal_OpenAI :: "gostring \<Rightarrow> gostring + gostring list"
  json_Unmarshal_Gemini :: "gostring \<Rightarrow> gostring + gostring list list"
  json_Unmarshal_Ollama :: "gostring \<Rightarrow> gostring + gostring"

definition instruction :: gostring where
  "instruction = str ''Eres un asistente que convierte lenguaje natural a comandos de Unix/Linux. Responde SOLO con el comando, sin explicaciones.''"

text \<open>The first switch of \<^verbatim>\<open>callAIAPI\<close>: the payload and the endpoint, or the error of the default case.\<close>

definition buildPayload :: "AIConfig \<Rightarrow> gostring \<Rightarrow> error + (payload \<times> gostring)" where
  "buildPayload config prompt =
     (if Provider config = str ''openai'' then
        Inr (OpenAIPayload (Model config)
               [(str ''system'', instruction), (str ''user'', prompt)] 100,
             BaseURL config)
      else if Provider config = str ''gemini'' then
        Inr (GeminiPayload (instruction @ str '' Usuario: '' @ prompt),
             BaseURL config @ str ''/'' @ Model config @ str '':generateContent?key=''
               @ APIKey config)
      else if Provider config = str ''ollama'' then
        Inr (OllamaPayload (Model config) (instruction @ str '' Usuario: '' @ prompt) False,
             BaseURL config)
      else Inl (UnsupportedProvider (Provider config)))"

definition buildHeaders :: "AIConfig \<Rightarrow> (gostring \<times> gostring) list" where
  "buildHeaders config =
     (str ''Content-Type'', str ''application/json'') #
     (if APIKey config \<noteq> [] \<and> Provider config = str ''openai''
      then [(str ''Authorization'', str ''Bearer '' @ APIKey config)] else [])"

text \<open>
  The end of \<^verbatim>\<open>callAIAPI\<close>, from the test of the status code on: the generated text of
  the response, or the error.
\<close>

definition decodeResponse :: "library \<Rightarrow> gostring \<Rightarrow> int \<Rightarrow> gostring \<Rightarrow> error + gostring" where
  "decodeResponse lib provider statusCode respBody =
     (if statusCode \<ge> 400 then Inl (HTTPStatus statusCode respBody)
      else if provider = str ''openai'' then
        (case json_Unmarshal_OpenAI lib respBody of
           Inl cause \<Rightarrow> Inl (MalformedOpenAI cause)
         | Inr choices \<Rightarrow> Inr (case choices of [] \<Rightarrow> [] | content # _ \<Rightarrow> content))
      else if provider = str ''gemini'' then
        (case json_Unmarshal_Gemini lib respBody of
           Inl cause \<Rightarrow> Inl (MalformedGemini cause)
         | Inr candidates \<Rightarrow>
             Inr (case candidates of
                    (t # _) # _ \<Rightarrow> t
                  | _ \<Rightarrow> []))
      else if provider = str ''ollama'' then
        (case json_Unmarshal_Ollama lib respBody of
           Inl cause \<Rightarrow> Inl (MalformedOllama cause)
         | Inr response \<Rightarrow> Inr response)
      else Inr [])"

text \<open>
  \<^verbatim>\<open>callAIAPI\<close> returns the generated text or the error, and, for the model, the list of
  the requests it handed to the network.
\<close>

definition callAIAPI ::
  "library \<Rightarrow> environ \<Rightarrow> gostring \<Rightarrow> (error + gostring) \<times> request list" where
  "callAIAPI lib env prompt =
     (let config = getAIConfig env in
      case buildPayload config prompt of
        Inl err \<Rightarrow> (Inl err, [])
      | Inr (payload, url) \<Rightarrow>
          (case json_Marshal lib payload of
             Inl cause \<Rightarrow> (Inl (MarshalError cause), [])
           | Inr jsonData \<Rightarrow>
               (case http_NewRequest lib url of
                  Some cause \<Rightarrow> (Inl (RequestError cause), [])
                | None \<Rightarrow>
                    (let req = \<lparr>endpoint = url, headers = buildHeaders config,
                                 body = jsonData\<rparr>
                     in case client_Do lib req of
                          Inl cause \<Rightarrow> (Inl (TransportError cause), [req])
                        | Inr (statusCode, Inl cause) \<Rightarrow> (Inl (ReadError cause), [req])
                        | Inr (statusCode, Inr respBody) \<Rightarrow>
                            (decodeResponse lib (Provider config) statusCode respBody,
                             [req])))))"

section \<open>The orchestrator\<close>

datatype translate_error = ConnectionFailed error | NoCommandExtracted

text \<open>\<^verbatim>\<open>TranslateToCommand\<close> returns the raw response, the command and the error, if any.\<close>

definition TranslateToCommand ::
  "library \<Rightarrow> environ \<Rightarrow> gostring \<Rightarrow> gostring \<times> gostring \<times> translate_error option" where
  "TranslateToCommand lib env userText =
     (case fst (callAIAPI lib env userText) of
        Inl err \<Rightarrow> ([], [], Some (ConnectionFailed err))
      | Inr rawResponse \<Rightarrow>
          (let sanitizedCommand = sanitizeCommand rawResponse in
           if sanitizedCommand = [] then (rawResponse, [], Some NoCommandExtracted)
           else (rawResponse, sanitizedCommand, None)))"

section \<open>Auxiliary definitions\<close>

text \<open>The lines that consist of a prompt marker and nothing else.\<close>

definition promptMarkers :: "gostring set" where
  "promptMarkers = {str ''$'', str ''neri>'', str ''Emiliano>''}"

text \<open>
  The test of the loop of case 3: a line is accepted when, trimmed, it is not empty and
  does not look like an explanation.
\<close>

definition accepted :: "gostring \<Rightarrow> bool" where
  "accepted l \<longleftrightarrow> TrimSpace l \<noteq> [] \<and> \<not> looksLikeExplanation (TrimSpace l)"

text \<open>
  A library whose network answers every request with the given status code and body and
  whose decoders read the given text from any body. It serves to run the model on
  concrete inputs.
\<close>

definition cannedLibrary :: "int \<Rightarrow> gostring \<Rightarrow> gostring \<Rightarrow> library" where
  "cannedLibrary statusCode respBody text =
     \<lparr>json_Marshal = (\<lambda>_. Inr []),
      http_NewRequest = (\<lambda>_. None),
      client_Do = (\<lambda>_. Inr (statusCode, Inr respBody)),
      json_Unmarshal_OpenAI = (\<lambda>_. Inr [text]),
      json_Unmarshal_Gemini = (\<lambda>_. Inr [[text]]),
      json_Unmarshal_Ollama = (\<lambda>_. Inr text)\<rparr>"

section \<open>Lines and white space\<close>

lemma SplitNL_not_Nil [simp]: "SplitNL s \<noteq> []"
  by (induction s) (auto split: list.splits)

lemma SplitNL_no_newline: "newline \<notin> set s \<Longrightarrow> SplitNL s = [s]"
  by (induction s) auto


lemma all_dropWhile: "(\<forall>r\<in>set (dropWhile P s). P r) \<longleftrightarrow> (\<forall>r\<in>set s. P r)"
  by (induction s) auto

lemma set_TrimSpace: "set (TrimSpace s) \<subseteq> set s"
proof -
  have "set (dropWhile isSpace (rev (dropWhile isSpace s))) \<subseteq> set (rev (dropWhile isSpace s))"
    by (auto dest: set_dropWhileD)
  also have "\<dots> \<subseteq> set s"
    by (auto dest: set_dropWhileD)
  finally show ?thesis by (simp add: TrimSpace_def)
qed

lemma TrimSpace_Nil [simp]: "TrimSpace [] = []"
  by (simp add: TrimSpace_def)

lemma TrimSpace_eq_Nil_iff: "TrimSpace s = [] \<longleftrightarrow> (\<forall>r\<in>set s. isSpace r)"
  by (simp add: TrimSpace_def dropWhile_eq_Nil_conv all_dropWhile)

lemma TrimSpace_hd: "TrimSpace s \<noteq> [] \<Longrightarrow> \<not> isSpace (hd (TrimSpace s))"
proof -
  assume ne: "TrimSpace s \<noteq> []"
  let ?d = "dropWhile isSpace s"
  have d: "?d \<noteq> []"
    using ne by (simp add: TrimSpace_eq_Nil_iff dropWhile_eq_Nil_conv)
  have "rev ?d = takeWhile isSpace (rev ?d) @ dropWhile isSpace (rev ?d)"
    by simp
  then have "?d = TrimSpace s @ rev (takeWhile isSpace (rev ?d))"
    unfolding TrimSpace_def by (metis rev_append rev_rev_ident)
  with ne have "hd ?d = hd (TrimSpace s)"
    by (metis hd_append2)
  then show ?thesis using hd_dropWhile [OF d] by simp
qed

lemma TrimSpace_last: "TrimSpace s \<noteq> [] \<Longrightarrow> \<not> isSpace (last (TrimSpace s))"
proof -
  assume ne: "TrimSpace s \<noteq> []"
  let ?e = "dropWhile isSpace (rev (dropWhile isSpace s))"
  have e: "?e \<noteq> []" using ne by (simp add: TrimSpace_def)
  have "last (TrimSpace s) = hd ?e"
    using e by (simp add: TrimSpace_def last_rev)
  then show ?thesis using hd_dropWhile [OF e] by simp
qed

lemma TrimSpace_fixed:
  assumes "s \<noteq> [] \<Longrightarrow> \<not> isSpace (hd s) \<and> \<not> isSpace (last s)"
  shows "TrimSpace s = s"
proof (cases "s = []")
  case True
  then show ?thesis by simp
next
  case False
  with assms have h: "\<not> isSpace (hd s)" and l: "\<not> isSpace (last s)" by auto
  have 1: "dropWhile isSpace s = s"
    using h by (simp add: dropWhile_eq_self_iff)
  have "hd (rev s) = last s" using False by (simp add: hd_rev)
  then have 2: "dropWhile isSpace (rev s) = rev s"
    using l by (simp add: dropWhile_eq_self_iff)
  show ?thesis by (simp add: TrimSpace_def 1 2)
qed

lemma TrimSpace_idem [simp]: "TrimSpace (TrimSpace s) = TrimSpace s"
  by (rule TrimSpace_fixed) (simp add: TrimSpace_hd TrimSpace_last)

section \<open>What the patterns capture\<close>

lemma lazyDot_no_newline: "lazyDot s = Some m \<Longrightarrow> newline \<notin> set m"
  by (induction s arbitrary: m) (auto split: if_splits)

lemma afterTag_no_newline: "afterTag s = Some m \<Longrightarrow> newline \<notin> set m"
  by (auto simp: afterTag_def split: list.splits if_splits option.splits
           dest: lazyDot_no_newline)

lemma tagged_no_newline: "tagged tag s = Some m \<Longrightarrow> newline \<notin> set m"
  by (auto simp: tagged_def split: if_splits dest: afterTag_no_newline)

lemma firstSome_cases: "firstSome xs = Some m \<Longrightarrow> Some m \<in> set xs"
  by (induction xs rule: firstSome.induct) auto

lemma fencedHere_no_newline:
  assumes "fencedHere s = Some m"
  shows "newline \<notin> set m"
proof -
  let ?t = "drop 3 s"
  let ?alts = "[tagged (str ''bash'') ?t, tagged (str ''sh'') ?t,
                tagged (str ''zsh'') ?t, tagged (str ''shell'') ?t, afterTag ?t]"
  from assms have "firstSome ?alts = Some m"
    by (simp add: fencedHere_def Let_def split: if_splits)
  then have "Some m \<in> set ?alts"
    by (rule firstSome_cases)
  moreover have "\<forall>x\<in>set ?alts. x = Some m \<longrightarrow> newline \<notin> set m"
    using tagged_no_newline afterTag_no_newline by simp
  ultimately show ?thesis by blast
qed

lemma backtickRegex_no_newline: "backtickRegex s = Some m \<Longrightarrow> newline \<notin> set m"
  by (induction s) (auto split: option.splits dest: fencedHere_no_newline)

lemma firstNonEmpty_cases:
  "firstNonEmpty ls = [] \<or> (\<exists>l\<in>set ls. firstNonEmpty ls = TrimSpace l)"
  by (induction ls) (auto simp: Let_def)

lemma getFirstNonEmptyLine_cases:
  "getFirstNonEmptyLine t = [] \<or> (\<exists>l\<in>set (SplitNL t). getFirstNonEmptyLine t = TrimSpace l)"
  unfolding getFirstNonEmptyLine_def by (rule firstNonEmpty_cases)



lemma getFirstNonEmptyLine_trimmed: "TrimSpace (getFirstNonEmptyLine t) = getFirstNonEmptyLine t"
  using getFirstNonEmptyLine_cases [of t] by auto


lemma scanLines_cases:
  "scanLines ls = Some c \<Longrightarrow> \<exists>l\<in>set ls. c = TrimSpace (stripPrompt (TrimSpace l))"
  by (induction ls) (auto simp: Let_def split: if_splits)


lemma scanLines_trimmed: "scanLines ls = Some c \<Longrightarrow> TrimSpace c = c"
  by (auto dest: scanLines_cases)



lemma fencedHere_no_backtick: "backtick \<notin> set s \<Longrightarrow> fencedHere s = None"
  by (cases s) (auto simp: fencedHere_def fence_def)

lemma backtickRegex_no_backtick: "backtick \<notin> set s \<Longrightarrow> backtickRegex s = None"
  by (induction s) (simp_all add: fencedHere_no_backtick)

lemma inlineHere_no_backtick: "backtick \<notin> set s \<Longrightarrow> inlineHere s = None"
  by (cases s) (auto simp: inlineHere_def)

lemma inlineRegex_no_backtick: "backtick \<notin> set s \<Longrightarrow> inlineRegex s = None"
  by (induction s) (simp_all add: inlineHere_no_backtick)

section \<open>Prompt markers\<close>

lemma reSpace_isSpace: "reSpace r \<Longrightarrow> isSpace r"
  by (auto simp: reSpace_def isSpace_def)

lemma isSpace_newline [simp]: "isSpace newline"
  by (simp add: isSpace_def)

lemma dropWhile_reSpace_trimmed:
  assumes "TrimSpace line = line"
  shows "dropWhile reSpace line = line"
proof (cases "line = []")
  case True
  then show ?thesis by simp
next
  case False
  then have "\<not> isSpace (hd line)"
    using TrimSpace_hd [of line] assms by simp
  then have "\<not> reSpace (hd line)"
    using reSpace_isSpace by blast
  then show ?thesis by (simp add: dropWhile_eq_self_iff)
qed

lemma blank_suffix_trimmed:
  assumes t: "TrimSpace line = line" and l: "line = p @ rest" and b: "TrimSpace rest = []"
  shows "rest = []"
proof (rule ccontr)
  assume n: "rest \<noteq> []"
  then have "line \<noteq> []" using l by simp
  then have "\<not> isSpace (last line)"
    using TrimSpace_last [of line] t by simp
  moreover have "last line = last rest" using n l by simp
  moreover have "isSpace (last rest)"
    using b n by (simp add: TrimSpace_eq_Nil_iff)
  ultimately show False by simp
qed


lemma prefix_drop: "prefix p s \<Longrightarrow> s = p @ drop (length p) s"
  by (auto simp: prefix_def)

lemma marker_only:
  assumes t: "TrimSpace line = line" and p: "prefix p line"
    and b: "TrimSpace (drop (length p) line) = []"
  shows "line = p"
proof -
  have l: "line = p @ drop (length p) line" using p by (rule prefix_drop)
  have "drop (length p) line = []"
    using t l b by (rule blank_suffix_trimmed)
  with l show ?thesis by simp
qed

lemma stripPrompt_blank:
  assumes t: "TrimSpace line = line" and n: "line \<noteq> []"
    and b: "TrimSpace (stripPrompt line) = []"
  shows "line \<in> promptMarkers"
proof -
  have d: "dropWhile reSpace line = line"
    using t by (rule dropWhile_reSpace_trimmed)
  consider (dollar) "prefix (str ''$'') line"
    | (neri) "\<not> prefix (str ''$'') line" "prefix (str ''neri>'') line"
    | (emi) "\<not> prefix (str ''$'') line" "\<not> prefix (str ''neri>'') line"
        "prefix (str ''Emiliano>'') line"
    | (none) "\<not> prefix (str ''$'') line" "\<not> prefix (str ''neri>'') line"
        "\<not> prefix (str ''Emiliano>'') line"
    by blast
  then show ?thesis
  proof cases
    case dollar
    then have "stripPrompt line = drop (length (str ''$'')) line"
      by (simp only: stripPrompt_def if_True)
    with b have "line = str ''$''"
      using marker_only [OF t dollar] by simp
    then show ?thesis by (simp only: promptMarkers_def insert_iff simp_thms)
  next
    case neri
    then have "stripPrompt line = drop (length (str ''neri>'')) line"
      by (simp only: stripPrompt_def Let_def d if_True if_False)
    with b have "line = str ''neri>''"
      using marker_only [OF t neri(2)] by simp
    then show ?thesis by (simp only: promptMarkers_def insert_iff simp_thms)
  next
    case emi
    then have "stripPrompt line = drop (length (str ''Emiliano>'')) line"
      by (simp only: stripPrompt_def Let_def d if_True if_False)
    with b have "line = str ''Emiliano>''"
      using marker_only [OF t emi(3)] by simp
    then show ?thesis by (simp only: promptMarkers_def insert_iff simp_thms)
  next
    case none
    then have "stripPrompt line = line"
      by (simp only: stripPrompt_def Let_def d if_True if_False)
    with b t n show ?thesis by simp
  qed
qed

lemma stripPrompt_no_marker:
  assumes "\<not> prefix (str ''$'') line" "\<not> prefix (str ''neri>'') line"
    "\<not> prefix (str ''Emiliano>'') line" "TrimSpace line = line"
  shows "stripPrompt line = line"
  using assms by (simp only: stripPrompt_def Let_def dropWhile_reSpace_trimmed if_False)


section \<open>Blank texts and accepted lines\<close>

lemma SplitNL_line_subset: "l \<in> set (SplitNL s) \<Longrightarrow> set l \<subseteq> set s"
proof (induction s arbitrary: l)
  case Nil
  then show ?case by simp
next
  case (Cons c cs)
  obtain h t where ht: "SplitNL cs = h # t"
    by (cases "SplitNL cs") auto
  have h: "set h \<subseteq> set cs" using Cons.IH [of h] ht by simp
  have t: "\<And>x. x \<in> set t \<Longrightarrow> set x \<subseteq> set cs" using Cons.IH ht by simp
  from Cons.prems ht have "l = [] \<or> l = h \<or> l = c # h \<or> l \<in> set t"
    by (auto split: if_splits)
  then show ?case using h t by auto
qed

lemma rune_in_line:
  "r \<in> set s \<Longrightarrow> r \<noteq> newline \<Longrightarrow> \<exists>l\<in>set (SplitNL s). r \<in> set l"
proof (induction s)
  case Nil
  then show ?case by simp
next
  case (Cons c cs)
  obtain h t where ht: "SplitNL cs = h # t"
    by (cases "SplitNL cs") auto
  show ?case
  proof (cases "r = c")
    case True
    with Cons.prems ht show ?thesis by simp
  next
    case False
    with Cons obtain l where l: "l \<in> set (SplitNL cs)" and r: "r \<in> set l" by auto
    from l ht have "l = h \<or> l \<in> set t" by simp
    then show ?thesis using r ht by (cases "c = newline") auto
  qed
qed

lemma nonblank_line_iff:
  "(\<exists>l\<in>set (SplitNL s). TrimSpace l \<noteq> []) \<longleftrightarrow> (\<exists>r\<in>set s. \<not> isSpace r)"
proof
  assume "\<exists>l\<in>set (SplitNL s). TrimSpace l \<noteq> []"
  then obtain l r where "l \<in> set (SplitNL s)" "r \<in> set l" "\<not> isSpace r"
    by (auto simp: TrimSpace_eq_Nil_iff)
  then show "\<exists>r\<in>set s. \<not> isSpace r"
    using SplitNL_line_subset by blast
next
  assume "\<exists>r\<in>set s. \<not> isSpace r"
  then obtain r where r: "r \<in> set s" "\<not> isSpace r" by blast
  then have "r \<noteq> newline" using isSpace_newline by blast
  with r obtain l where "l \<in> set (SplitNL s)" "r \<in> set l"
    using rune_in_line by blast
  with r show "\<exists>l\<in>set (SplitNL s). TrimSpace l \<noteq> []"
    by (auto simp: TrimSpace_eq_Nil_iff)
qed

lemma firstNonEmpty_eq_Nil_iff:
  "firstNonEmpty ls = [] \<longleftrightarrow> (\<forall>l\<in>set ls. TrimSpace l = [])"
  by (induction ls) (auto simp: Let_def)

lemma scanLines_find:
  "scanLines ls =
     (case find accepted ls of
        None \<Rightarrow> None
      | Some l \<Rightarrow> Some (TrimSpace (stripPrompt (TrimSpace l))))"
  by (induction ls) (simp_all add: accepted_def Let_def)

lemma find_accepted: "find accepted ls = Some l \<Longrightarrow> TrimSpace l \<noteq> []"
  by (auto simp: find_Some_iff accepted_def)

lemma getFirstNonEmptyLine_eq_Nil_iff:
  "getFirstNonEmptyLine t = [] \<longleftrightarrow> (\<forall>r\<in>set t. isSpace r)"
  using nonblank_line_iff [of t]
  by (auto simp: getFirstNonEmptyLine_def firstNonEmpty_eq_Nil_iff)

lemma getFirstNonEmptyLine_trimmed_eq_Nil_iff:
  "getFirstNonEmptyLine (TrimSpace m) = [] \<longleftrightarrow> TrimSpace m = []"
  using TrimSpace_eq_Nil_iff [of "TrimSpace m"]
  by (simp add: getFirstNonEmptyLine_eq_Nil_iff)

section \<open>Evaluation\<close>

lemma str_eq_iff: "str a = str b \<longleftrightarrow> a = b"
  by (simp add: str_def inj_map_eq_map inj_on_def)

lemma str_eq_Nil_iff: "str a = [] \<longleftrightarrow> a = []"
  by (simp add: str_def)

lemmas sanitize_eval =
  str_def sanitizeCommand_def TrimSpace_def isSpace_def getFirstNonEmptyLine_def
  fencedHere_def tagged_def afterTag_def closeHere_def fence_def inlineHere_def
  looksLikeExplanation_def explanationPatterns_def ToLower_def toLowerRune_def
  stripPrompt_def reSpace_def Let_def

lemmas api_eval =
  callAIAPI_def getAIConfig_def getEnvOrDefault_def Getenv_def buildPayload_def
  decodeResponse_def cannedLibrary_def str_eq_iff str_eq_Nil_iff Let_def

text \<open>
  The model on the examples of the specification that the code does satisfy: a fence with
  one line inside, with and without a tag; a line of explanation before the command; the
  two prompt markers; the empty text.
\<close>

lemma sanitize_examples:
  "sanitizeCommand (str ''```bash\<newline>ls -la\<newline>```'') = str ''ls -la''"
  "sanitizeCommand (str ''```\<newline>ls -la\<newline>```'') = str ''ls -la''"
  "sanitizeCommand (str ''```shell\<newline>ls -la\<newline>```'') = str ''ls -la''"
  "sanitizeCommand (str ''Use `ls -la` to list files'') = str ''ls -la''"
  "sanitizeCommand (str ''This will list files\<newline>ls -la'') = str ''ls -la''"
  "sanitizeCommand (str ''$ ls -la'') = str ''ls -la''"
  "sanitizeCommand (str ''neri> ls -la'') = str ''ls -la''"
  "sanitizeCommand [] = []"
  by (simp_all add: sanitize_eval)

lemma stripPrompt_marker:
  assumes "line \<in> promptMarkers"
  shows "TrimSpace (stripPrompt line) = []"
proof -
  have e: "TrimSpace (stripPrompt (str ''$'')) = []"
    "TrimSpace (stripPrompt (str ''neri>'')) = []"
    "TrimSpace (stripPrompt (str ''Emiliano>'')) = []"
    by (simp_all add: sanitize_eval)
  from assms have "line = str ''$'' \<or> line = str ''neri>'' \<or> line = str ''Emiliano>''"
    by (simp only: promptMarkers_def insert_iff empty_iff simp_thms)
  with e show ?thesis by blast
qed

lemma stripped_blank_iff:
  assumes "TrimSpace l \<noteq> []"
  shows "TrimSpace (stripPrompt (TrimSpace l)) = [] \<longleftrightarrow> TrimSpace l \<in> promptMarkers"
proof
  assume "TrimSpace (stripPrompt (TrimSpace l)) = []"
  with assms show "TrimSpace l \<in> promptMarkers"
    by (intro stripPrompt_blank) simp_all
next
  assume "TrimSpace l \<in> promptMarkers"
  then show "TrimSpace (stripPrompt (TrimSpace l)) = []"
    by (rule stripPrompt_marker)
qed

section \<open>Properties of the sanitizer\<close>

text \<open>
  Claim C1. The specification says that a fenced block with several lines inside yields
  the first non-blank line of its interior, \<^verbatim>\<open>ls -la\<close> for the block with the lines
  \<^verbatim>\<open>ls -la\<close> and \<^verbatim>\<open># list files\<close> under the tag \<^verbatim>\<open>bash\<close>. In the code the dot of
  the fenced pattern does not match a newline, so the pattern does not match this text
  at all; the inline pattern then matches from the third backtick of the opening fence to
  the first backtick of the closing one, and the result is the tag and both lines.
\<close>

theorem fenced_multiline_not_extracted:
  "backtickRegex (str ''```bash\<newline>ls -la\<newline># list files\<newline>```'') = None
   \<and> sanitizeCommand (str ''```bash\<newline>ls -la\<newline># list files\<newline>```'')
       = str ''bash\<newline>ls -la\<newline># list files''"
  by (simp add: sanitize_eval)

text \<open>
  Claim C2, as stated: a text with a non-blank line is never sanitized to the empty
  string, so that the orchestrator reports \<open>NoCommandExtracted\<close> only for a blank text.
  It fails on a line that is a prompt marker and nothing else, which case 3 accepts and
  then strips; the orchestrator then reports \<open>NoCommandExtracted\<close> for the text
  \<^verbatim>\<open>$\<close>. It fails as well on a fence and on an inline span whose interior is blank.
\<close>

theorem bare_prompt_marker_yields_empty:
  "SplitNL (str ''$'') = [str ''$''] \<and> TrimSpace (str ''$'') = str ''$''
   \<and> sanitizeCommand (str ''$'') = []
   \<and> TranslateToCommand (cannedLibrary 200 (str ''{\"response\":\"$\"}'') (str ''$''))
         Map.empty (str ''listar archivos'')
       = (str ''$'', [], Some NoCommandExtracted)
   \<and> sanitizeCommand (str ''``````'') = []
   \<and> sanitizeCommand (str ''` `'') = []"
proof -
  have s: "SplitNL (str ''$'') = [str ''$'']" "TrimSpace (str ''$'') = str ''$''"
    "sanitizeCommand (str ''$'') = []" "sanitizeCommand (str ''``````'') = []"
    "sanitizeCommand (str ''` `'') = []"
    by (simp_all add: sanitize_eval)
  have c: "fst (callAIAPI (cannedLibrary 200 (str ''{\"response\":\"$\"}'') (str ''$''))
         Map.empty (str ''listar archivos'')) = Inr (str ''$'')"
    by (simp add: api_eval)
  have "TranslateToCommand (cannedLibrary 200 (str ''{\"response\":\"$\"}'') (str ''$''))
         Map.empty (str ''listar archivos'')
       = (str ''$'', [], Some NoCommandExtracted)"
    unfolding TranslateToCommand_def c by (simp add: s)
  with s show ?thesis by simp
qed

text \<open>
  Claim C2, amended: a text with a non-blank line is sanitized to the empty string in
  three cases and in no other: the fenced pattern matches and its interior is blank; the
  fenced pattern does not match, the inline pattern does and its span is blank; neither
  pattern matches and the first accepted line is a bare prompt marker. The orchestrator
  reports \<open>NoCommandExtracted\<close> for a generated text exactly when it is sanitized to the
  empty string.
\<close>

theorem sanitize_empty_cases:
  assumes n: "\<exists>l\<in>set (SplitNL raw). TrimSpace l \<noteq> []"
  shows "(sanitizeCommand raw = [] \<longleftrightarrow>
           (\<exists>m. backtickRegex (TrimSpace raw) = Some m \<and> TrimSpace m = [])
         \<or> (backtickRegex (TrimSpace raw) = None
             \<and> (\<exists>m. inlineRegex (TrimSpace raw) = Some m \<and> TrimSpace m = []))
         \<or> (backtickRegex (TrimSpace raw) = None \<and> inlineRegex (TrimSpace raw) = None
             \<and> (\<exists>l. find accepted (SplitNL (TrimSpace raw)) = Some l
                      \<and> TrimSpace l \<in> promptMarkers)))
    \<and> (fst (callAIAPI lib env userText) = Inr raw \<longrightarrow>
         TranslateToCommand lib env userText =
           (if sanitizeCommand raw = [] then (raw, [], Some NoCommandExtracted)
            else (raw, sanitizeCommand raw, None)))"
proof -
  let ?t = "TrimSpace raw"
  have "\<exists>r\<in>set raw. \<not> isSpace r"
    using n by (simp add: nonblank_line_iff)
  then have "?t \<noteq> []" by (simp add: TrimSpace_eq_Nil_iff)
  then have g: "getFirstNonEmptyLine ?t \<noteq> []"
    by (simp add: getFirstNonEmptyLine_trimmed_eq_Nil_iff)
  have 1: "sanitizeCommand raw = [] \<longleftrightarrow>
           (\<exists>m. backtickRegex ?t = Some m \<and> TrimSpace m = [])
         \<or> (backtickRegex ?t = None \<and> (\<exists>m. inlineRegex ?t = Some m \<and> TrimSpace m = []))
         \<or> (backtickRegex ?t = None \<and> inlineRegex ?t = None
             \<and> (\<exists>l. find accepted (SplitNL ?t) = Some l \<and> TrimSpace l \<in> promptMarkers))"
  proof (cases "backtickRegex ?t")
    case (Some m)
    then show ?thesis
      by (simp add: sanitizeCommand_def getFirstNonEmptyLine_trimmed_eq_Nil_iff)
  next
    case f: None
    show ?thesis
    proof (cases "inlineRegex ?t")
      case (Some m)
      then show ?thesis using f by (simp add: sanitizeCommand_def)
    next
      case i: None
      show ?thesis
      proof (cases "find accepted (SplitNL ?t)")
        case None
        then show ?thesis using f i g by (simp add: sanitizeCommand_def scanLines_find)
      next
        case (Some l)
        then show ?thesis
          using f i stripped_blank_iff [OF find_accepted [OF Some]]
          by (simp add: sanitizeCommand_def scanLines_find)
      qed
    qed
  qed
  have 2: "fst (callAIAPI lib env userText) = Inr raw \<longrightarrow>
         TranslateToCommand lib env userText =
           (if sanitizeCommand raw = [] then (raw, [], Some NoCommandExtracted)
            else (raw, sanitizeCommand raw, None))"
    by (simp add: TranslateToCommand_def Let_def)
  from 1 2 show ?thesis by (rule conjI)
qed

theorem sanitize_empty_cases_witness:
  "SplitNL (str ''This will list files\<newline>ls -la'')
       = [str ''This will list files'', str ''ls -la'']
   \<and> backtickRegex (TrimSpace (str ''This will list files\<newline>ls -la'')) = None
   \<and> inlineRegex (TrimSpace (str ''This will list files\<newline>ls -la'')) = None
   \<and> find accepted (SplitNL (TrimSpace (str ''This will list files\<newline>ls -la'')))
       = Some (str ''ls -la'')
   \<and> sanitizeCommand (str ''This will list files\<newline>ls -la'') = str ''ls -la''
   \<and> TranslateToCommand
         (cannedLibrary 200 (str ''{}'') (str ''This will list files\<newline>ls -la''))
         Map.empty (str ''listar archivos'')
       = (str ''This will list files\<newline>ls -la'', str ''ls -la'', None)"
proof -
  let ?raw = "str ''This will list files\<newline>ls -la''"
  let ?lib = "cannedLibrary 200 (str ''{}'') ?raw"
  have f: "backtickRegex (TrimSpace ?raw) = None"
    and i: "inlineRegex (TrimSpace ?raw) = None"
    by (simp_all add: sanitize_eval)
  have s: "SplitNL ?raw = [str ''This will list files'', str ''ls -la'']"
    by (simp add: str_def)
  have a: "find accepted (SplitNL (TrimSpace ?raw)) = Some (str ''ls -la'')"
    by (simp add: accepted_def sanitize_eval)
  have n: "\<exists>l\<in>set (SplitNL ?raw). TrimSpace l \<noteq> []"
    unfolding s by (simp add: str_def TrimSpace_def isSpace_def)
  have v: "sanitizeCommand ?raw = str ''ls -la''"
    by (simp add: sanitize_eval)
  have c: "fst (callAIAPI ?lib Map.empty (str ''listar archivos'')) = Inr ?raw"
    by (simp add: api_eval)
  have ne: "str ''ls -la'' \<noteq> []" by (simp add: str_def)
  have "TranslateToCommand ?lib Map.empty (str ''listar archivos'')
          = (?raw, str ''ls -la'', None)"
    using sanitize_empty_cases [OF n, of ?lib Map.empty "str ''listar archivos''"] c ne
    unfolding v by (simp only: if_False simp_thms)
  then show ?thesis
    using f i s a v by (simp only: simp_thms)
qed




text \<open>
  Claim C4. The specification says that a text with a fenced block and a later inline
  span is sanitized to content of the fenced block, never of the inline span. In the code
  a fence with several lines inside is not matched (the dot of the fenced pattern stops
  at a newline, as for claim C1), and the pattern can then match from the closing fence
  of one block to the opening fence of the next: for a block of two lines, the inline
  span \<^verbatim>\<open>`cd /tmp`\<close> on a line of its own and a second block, the result is the
  inline span, backticks included. With a single block of two lines and a later inline
  span the result is the tag and both lines of the block, through case 2.
\<close>

theorem fenced_precedence_broken:
  "sanitizeCommand (str ''```bash\<newline>ls -la\<newline>pwd\<newline>```\<newline>`cd /tmp`\<newline>```bash\<newline>whoami\<newline>```'')
     = str ''`cd /tmp`''
   \<and> sanitizeCommand (str ''```bash\<newline>ls -la\<newline>pwd\<newline>``` then `cd /tmp`'')
     = str ''bash\<newline>ls -la\<newline>pwd''"
  by (simp add: sanitize_eval)

text \<open>
  Claim C5, as stated: a single line without backticks that starts with no explanation
  phrase is returned trimmed and otherwise unchanged. It fails on a line that starts with
  a prompt marker, which case 3 removes.
\<close>

theorem prompt_marker_stripped:
  "newline \<notin> set (str ''$ ls -la'') \<and> backtick \<notin> set (str ''$ ls -la'')
   \<and> \<not> looksLikeExplanation (str ''$ ls -la'')
   \<and> TrimSpace (str ''$ ls -la'') = str ''$ ls -la''
   \<and> sanitizeCommand (str ''$ ls -la'') = str ''ls -la''"
  by (simp add: sanitize_eval)

text \<open>
  Claim C5, amended: a single line without backticks whose trimmed form does not start
  with a prompt marker (\<^verbatim>\<open>$\<close>, \<^verbatim>\<open>neri>\<close>, \<^verbatim>\<open>Emiliano>\<close>) is returned trimmed and
  otherwise unchanged. The hypothesis on explanation phrases is not needed: a single line
  that starts with one is skipped by case 3 and returned by the fallback.
\<close>

theorem sanitize_bare_command:
  assumes nl: "newline \<notin> set c" and bt: "backtick \<notin> set c"
    and p1: "\<not> prefix (str ''$'') (TrimSpace c)"
    and p2: "\<not> prefix (str ''neri>'') (TrimSpace c)"
    and p3: "\<not> prefix (str ''Emiliano>'') (TrimSpace c)"
  shows "sanitizeCommand c = TrimSpace c"
proof -
  let ?raw = "TrimSpace c"
  have nl': "newline \<notin> set ?raw" and bt': "backtick \<notin> set ?raw"
    using nl bt set_TrimSpace by blast+
  have f: "backtickRegex ?raw = None" using bt' by (rule backtickRegex_no_backtick)
  have i: "inlineRegex ?raw = None" using bt' by (rule inlineRegex_no_backtick)
  have s: "SplitNL ?raw = [?raw]" using nl' by (rule SplitNL_no_newline)
  have sp: "stripPrompt ?raw = ?raw"
    using p1 p2 p3 by (simp add: stripPrompt_no_marker)
  have g: "getFirstNonEmptyLine ?raw = ?raw"
    by (simp add: getFirstNonEmptyLine_def s Let_def)
  have "scanLines [?raw] = Some ?raw \<or> scanLines [?raw] = None"
    by (simp add: sp Let_def)
  then show ?thesis
    unfolding sanitizeCommand_def Let_def f i s g by auto
qed

theorem sanitize_bare_command_witness:
  "newline \<notin> set (str ''  grep -r hola .  '') \<and> backtick \<notin> set (str ''  grep -r hola .  '')
   \<and> \<not> prefix (str ''$'') (TrimSpace (str ''  grep -r hola .  ''))
   \<and> \<not> prefix (str ''neri>'') (TrimSpace (str ''  grep -r hola .  ''))
   \<and> \<not> prefix (str ''Emiliano>'') (TrimSpace (str ''  grep -r hola .  ''))
   \<and> sanitizeCommand (str ''  grep -r hola .  '') = str ''grep -r hola .''"
proof -
  have t: "TrimSpace (str ''  grep -r hola .  '') = str ''grep -r hola .''"
    by (simp add: str_def TrimSpace_def isSpace_def)
  have 1: "newline \<notin> set (str ''  grep -r hola .  '')"
    and 2: "backtick \<notin> set (str ''  grep -r hola .  '')"
    by (simp_all add: str_def)
  have 3: "\<not> prefix (str ''$'') (TrimSpace (str ''  grep -r hola .  ''))"
    and 4: "\<not> prefix (str ''neri>'') (TrimSpace (str ''  grep -r hola .  ''))"
    and 5: "\<not> prefix (str ''Emiliano>'') (TrimSpace (str ''  grep -r hola .  ''))"
    unfolding t by (simp_all add: str_def)
  show ?thesis
    using 1 2 3 4 5 sanitize_bare_command [OF 1 2 3 4 5] t by simp
qed

text \<open>
  Claim C6, as stated: when the fenced pattern matches with a blank interior, the result
  is the first non-empty line of the whole trimmed text. It fails: case 1 passes the
  trimmed capture, not the text, to \<^verbatim>\<open>getFirstNonEmptyLine\<close>, and the result is the
  empty string although the text has non-blank lines.
\<close>

theorem blank_fence_yields_empty:
  "backtickRegex (TrimSpace (str ''```\<newline>```\<newline>ls -la'')) = Some []
   \<and> sanitizeCommand (str ''```\<newline>```\<newline>ls -la'') = []
   \<and> getFirstNonEmptyLine (TrimSpace (str ''```\<newline>```\<newline>ls -la'')) = str ''```''"
  by (simp add: sanitize_eval)

text \<open>
  Claim C6, amended: when the fenced pattern matches the trimmed text with a blank
  interior, the result is the empty string, whatever the text holds outside the fence;
  the inline-span and plain-line cases are not applied.
\<close>

theorem blank_fence_empty:
  "backtickRegex (TrimSpace raw) = Some m \<Longrightarrow> TrimSpace m = [] \<Longrightarrow> sanitizeCommand raw = []"
  by (simp add: sanitizeCommand_def getFirstNonEmptyLine_def)

theorem blank_fence_empty_witness:
  "backtickRegex (TrimSpace (str ''```bash\<newline>   \<newline>```\<newline>ls -la'')) = Some (str ''   '')
   \<and> TrimSpace (str ''   '') = []
   \<and> sanitizeCommand (str ''```bash\<newline>   \<newline>```\<newline>ls -la'') = []"
proof -
  have m: "backtickRegex (TrimSpace (str ''```bash\<newline>   \<newline>```\<newline>ls -la'')) = Some (str ''   '')"
    by (simp add: sanitize_eval)
  have b: "TrimSpace (str ''   '') = []"
    by (simp add: sanitize_eval)
  show ?thesis
    using m b blank_fence_empty [OF m b] by simp
qed

text \<open>
  Claim C9: for every input text the result of \<^verbatim>\<open>sanitizeCommand\<close> has no leading and no
  trailing white space: trimming it again changes nothing, and neither end of it starts
  with a white-space rune.
\<close>

theorem sanitize_trimmed:
  "TrimSpace (sanitizeCommand raw) = sanitizeCommand raw
   \<and> takeWhile isSpace (sanitizeCommand raw) = []
   \<and> takeWhile isSpace (rev (sanitizeCommand raw)) = []"
proof -
  have t: "TrimSpace (sanitizeCommand raw) = sanitizeCommand raw"
    by (simp add: sanitizeCommand_def Let_def getFirstNonEmptyLine_trimmed scanLines_trimmed
             split: option.splits)
  show ?thesis
  proof (cases "sanitizeCommand raw = []")
    case True
    with t show ?thesis by simp
  next
    case False
    then have "\<not> isSpace (hd (sanitizeCommand raw))"
      and "\<not> isSpace (last (sanitizeCommand raw))"
      using TrimSpace_hd [of "sanitizeCommand raw"] TrimSpace_last [of "sanitizeCommand raw"] t
      by simp_all
    with False t show ?thesis
      by (simp add: takeWhile_eq_Nil_iff hd_rev)
  qed
qed

theorem sanitize_trimmed_witness:
  "TrimSpace (sanitizeCommand (str ''  neri>   ls -la  '')) = str ''ls -la''
   \<and> sanitizeCommand (str ''  neri>   ls -la  '') = str ''ls -la''"
proof -
  have "sanitizeCommand (str ''  neri>   ls -la  '') = str ''ls -la''"
    by (simp add: sanitize_eval)
  then show ?thesis
    using sanitize_trimmed [of "str ''  neri>   ls -la  ''"] by simp
qed

section \<open>Properties of the provider layer\<close>

text \<open>
  Claim C7: for every provider and every response whose status code is at least 400, the
  decoding step fails with \<open>HTTPStatus\<close>, which carries the code and the raw body; the
  decoders of the library are not consulted, whatever they would answer.
\<close>

theorem decode_http_status:
  "400 \<le> statusCode \<Longrightarrow>
     decodeResponse lib provider statusCode respBody = Inl (HTTPStatus statusCode respBody)"
  by (simp add: decodeResponse_def)

theorem decode_http_status_witness:
  "decodeResponse (cannedLibrary 200 (str ''{\"response\":\"ls -la\"}'') (str ''ls -la''))
       (str ''ollama'') 200 (str ''{\"response\":\"ls -la\"}'')
     = Inr (str ''ls -la'')
   \<and> decodeResponse (cannedLibrary 500 (str ''{\"response\":\"ls -la\"}'') (str ''ls -la''))
       (str ''ollama'') 500 (str ''{\"response\":\"ls -la\"}'')
     = Inl (HTTPStatus 500 (str ''{\"response\":\"ls -la\"}''))
   \<and> fst (callAIAPI (cannedLibrary 500 (str ''{\"response\":\"ls -la\"}'') (str ''ls -la''))
            Map.empty (str ''listar archivos''))
     = Inl (HTTPStatus 500 (str ''{\"response\":\"ls -la\"}''))"
proof -
  have h: "(400::int) \<le> 500" by simp
  have ok: "decodeResponse (cannedLibrary 200 (str ''{\"response\":\"ls -la\"}'') (str ''ls -la''))
       (str ''ollama'') 200 (str ''{\"response\":\"ls -la\"}'') = Inr (str ''ls -la'')"
    by (simp add: decodeResponse_def cannedLibrary_def str_def)
  have call: "fst (callAIAPI (cannedLibrary 500 (str ''{\"response\":\"ls -la\"}'') (str ''ls -la''))
            Map.empty (str ''listar archivos''))
     = decodeResponse (cannedLibrary 500 (str ''{\"response\":\"ls -la\"}'') (str ''ls -la''))
       (str ''ollama'') 500 (str ''{\"response\":\"ls -la\"}'')"
    by (simp add: callAIAPI_def getAIConfig_def getEnvOrDefault_def Getenv_def buildPayload_def
          cannedLibrary_def Let_def str_def)
  show ?thesis
    using ok call decode_http_status [OF h] by simp
qed

text \<open>
  Claim C8: \<^verbatim>\<open>getAIConfig\<close> is a total function of the environment. When the provider
  selector is set to a value outside \<^verbatim>\<open>openai\<close>, \<^verbatim>\<open>gemini\<close>, \<^verbatim>\<open>ollama\<close> (a
  selector bound to the empty string counts as not set, see claim C10), the resolved
  configuration keeps that value, and \<^verbatim>\<open>callAIAPI\<close> fails with
  \<open>UnsupportedProvider\<close> carrying it, with no request handed to the network.
\<close>

theorem unsupported_provider_rejected:
  assumes "env (str ''AI_PROVIDER'') = Some p" and "p \<noteq> []"
    and "p \<notin> {str ''openai'', str ''gemini'', str ''ollama''}"
  shows "getAIConfig env = \<lparr>Provider = p, BaseURL = [], APIKey = [], Model = []\<rparr>
    \<and> callAIAPI lib env prompt = (Inl (UnsupportedProvider p), [])"
  using assms
  by (simp add: callAIAPI_def getAIConfig_def getEnvOrDefault_def Getenv_def buildPayload_def
        Let_def)

theorem unsupported_provider_rejected_witness:
  "getAIConfig [str ''AI_PROVIDER'' \<mapsto> str ''claude'']
     = \<lparr>Provider = str ''claude'', BaseURL = [], APIKey = [], Model = []\<rparr>
   \<and> callAIAPI (cannedLibrary 200 (str ''{\"response\":\"ls -la\"}'') (str ''ls -la''))
         [str ''AI_PROVIDER'' \<mapsto> str ''claude''] (str ''listar archivos'')
     = (Inl (UnsupportedProvider (str ''claude'')), [])"
proof -
  have 1: "[str ''AI_PROVIDER'' \<mapsto> str ''claude''] (str ''AI_PROVIDER'') = Some (str ''claude'')"
    by simp
  have 2: "str ''claude'' \<noteq> []" by (simp add: str_def)
  have 3: "str ''claude'' \<notin> {str ''openai'', str ''gemini'', str ''ollama''}"
    by (simp add: str_def)
  show ?thesis
    using unsupported_provider_rejected
      [where env = "[str ''AI_PROVIDER'' \<mapsto> str ''claude'']" and p = "str ''claude''"
         and lib = "cannedLibrary 200 (str ''{\"response\":\"ls -la\"}'') (str ''ls -la'')"
         and prompt = "str ''listar archivos''", OF 1 2 3]
    by simp
qed

text \<open>
  Claim C10, as stated: a setting bound to the empty string is treated as one that is not
  bound and the default of the provider is used, so that the resolved provider, endpoint
  and model are never empty. It fails for a provider outside the three supported ones:
  the switch of \<^verbatim>\<open>getAIConfig\<close> has no case for it, no default exists, and endpoint
  and model stay empty.
\<close>

theorem unsupported_provider_has_empty_fields:
  "getAIConfig [str ''AI_PROVIDER'' \<mapsto> str ''claude'', str ''AI_BASE_URL'' \<mapsto> [],
                str ''AI_MODEL'' \<mapsto> []]
     = \<lparr>Provider = str ''claude'', BaseURL = [], APIKey = [], Model = []\<rparr>"
  by (simp add: getAIConfig_def getEnvOrDefault_def Getenv_def Let_def str_eq_iff str_eq_Nil_iff)

text \<open>
  Claim C10, amended: for every name, the resolved configuration is the same whether the
  name is bound to the empty string or not bound. With the selector, the endpoint and the
  model all bound to the empty string the configuration is that of \<^verbatim>\<open>ollama\<close> with its
  defaults. When the environment selects one of the three supported providers (or
  \<^verbatim>\<open>ollama\<close> by an empty or missing selector), an endpoint or model bound to the empty
  string resolves to the default of that provider. The resolved provider is never empty,
  and for a supported provider neither are the endpoint and the model.
\<close>

theorem empty_override_is_absent:
  assumes t: "(p, d, m) \<in>
      {(str ''openai'', str ''https://api.openai.com/v1/chat/completions'', str ''gpt-3.5-turbo''),
       (str ''gemini'', str ''https://generativelanguage.googleapis.com/v1beta/models'',
        str ''gemini-pro''),
       (str ''ollama'', str ''http://localhost:11434/api/generate'', str ''llama2'')}"
    and e: "env (str ''AI_PROVIDER'') = Some p
      \<or> p = str ''ollama''
        \<and> (env (str ''AI_PROVIDER'') = None \<or> env (str ''AI_PROVIDER'') = Some [])"
  shows "getAIConfig (env'(key \<mapsto> [])) = getAIConfig (env'(key := None))
    \<and> getAIConfig (env'(str ''AI_PROVIDER'' \<mapsto> [], str ''AI_BASE_URL'' \<mapsto> [],
                      str ''AI_MODEL'' \<mapsto> []))
        = \<lparr>Provider = str ''ollama'', BaseURL = str ''http://localhost:11434/api/generate'',
            APIKey = [], Model = str ''llama2''\<rparr>
    \<and> getAIConfig (env(str ''AI_BASE_URL'' \<mapsto> [], str ''AI_MODEL'' \<mapsto> []))
        = \<lparr>Provider = p, BaseURL = d,
            APIKey = (if p = str ''ollama'' then [] else Getenv env (str ''AI_API_KEY'')),
            Model = m\<rparr>
    \<and> BaseURL (getAIConfig (env(str ''AI_BASE_URL'' \<mapsto> []))) = d
    \<and> Model (getAIConfig (env(str ''AI_MODEL'' \<mapsto> []))) = m
    \<and> Provider (getAIConfig env') \<noteq> []
    \<and> (Provider (getAIConfig env') \<in> {str ''openai'', str ''gemini'', str ''ollama''}
        \<longrightarrow> BaseURL (getAIConfig env') \<noteq> [] \<and> Model (getAIConfig env') \<noteq> [])"
proof -
  have g: "Getenv (env'(key \<mapsto> [])) = Getenv (env'(key := None))"
    by (rule ext) (simp add: Getenv_def)
  have n: "\<And>k d. d \<noteq> [] \<Longrightarrow> getEnvOrDefault env' k d \<noteq> []"
    by (simp add: getEnvOrDefault_def Let_def)
  have s: "\<And>s. s \<noteq> [] \<Longrightarrow> str s \<noteq> []" by (simp add: str_def)
  have z: "\<And>a. [] = str a \<longleftrightarrow> a = []" by (auto simp: str_def)
  have 1: "getAIConfig (env'(key \<mapsto> [])) = getAIConfig (env'(key := None))"
    by (simp only: getAIConfig_def getEnvOrDefault_def g)
  have 2: "getAIConfig (env'(str ''AI_PROVIDER'' \<mapsto> [], str ''AI_BASE_URL'' \<mapsto> [],
                      str ''AI_MODEL'' \<mapsto> []))
        = \<lparr>Provider = str ''ollama'', BaseURL = str ''http://localhost:11434/api/generate'',
            APIKey = [], Model = str ''llama2''\<rparr>"
    by (simp add: getAIConfig_def getEnvOrDefault_def Getenv_def Let_def str_eq_iff
          str_eq_Nil_iff)
  from t have p: "p = str ''openai'' \<and> d = str ''https://api.openai.com/v1/chat/completions''
        \<and> m = str ''gpt-3.5-turbo''
      \<or> p = str ''gemini'' \<and> d = str ''https://generativelanguage.googleapis.com/v1beta/models''
        \<and> m = str ''gemini-pro''
      \<or> p = str ''ollama'' \<and> d = str ''http://localhost:11434/api/generate''
        \<and> m = str ''llama2''"
    by simp
  have 3: "getAIConfig (env(str ''AI_BASE_URL'' \<mapsto> [], str ''AI_MODEL'' \<mapsto> []))
        = \<lparr>Provider = p, BaseURL = d,
            APIKey = (if p = str ''ollama'' then [] else Getenv env (str ''AI_API_KEY'')),
            Model = m\<rparr>"
    using p e
    by (auto simp: getAIConfig_def getEnvOrDefault_def Getenv_def Let_def str_eq_iff
          str_eq_Nil_iff z)
  have 4: "BaseURL (getAIConfig (env(str ''AI_BASE_URL'' \<mapsto> []))) = d"
    using p e
    by (auto simp: getAIConfig_def getEnvOrDefault_def Getenv_def Let_def str_eq_iff
          str_eq_Nil_iff z)
  have 5: "Model (getAIConfig (env(str ''AI_MODEL'' \<mapsto> []))) = m"
    using p e
    by (auto simp: getAIConfig_def getEnvOrDefault_def Getenv_def Let_def str_eq_iff
          str_eq_Nil_iff z)
  have 6: "Provider (getAIConfig env') \<noteq> []"
    by (simp add: getAIConfig_def Let_def n s)
  have 7: "Provider (getAIConfig env') \<in> {str ''openai'', str ''gemini'', str ''ollama''}
        \<longrightarrow> BaseURL (getAIConfig env') \<noteq> [] \<and> Model (getAIConfig env') \<noteq> []"
    by (simp add: getAIConfig_def Let_def n s)
  from 1 2 3 4 5 6 7 show ?thesis by blast
qed

theorem empty_override_is_absent_witness:
  "getAIConfig [str ''AI_PROVIDER'' \<mapsto> str ''openai'', str ''AI_API_KEY'' \<mapsto> str ''sk-1'',
                str ''AI_BASE_URL'' \<mapsto> [], str ''AI_MODEL'' \<mapsto> []]
     = \<lparr>Provider = str ''openai'', BaseURL = str ''https://api.openai.com/v1/chat/completions'',
         APIKey = str ''sk-1'', Model = str ''gpt-3.5-turbo''\<rparr>
   \<and> getAIConfig [str ''AI_PROVIDER'' \<mapsto> [], str ''AI_BASE_URL'' \<mapsto> [],
                  str ''AI_MODEL'' \<mapsto> []]
     = \<lparr>Provider = str ''ollama'', BaseURL = str ''http://localhost:11434/api/generate'',
         APIKey = [], Model = str ''llama2''\<rparr>"
proof -
  let ?env = "[str ''AI_PROVIDER'' \<mapsto> str ''openai'', str ''AI_API_KEY'' \<mapsto> str ''sk-1'']"
  have t: "(str ''openai'', str ''https://api.openai.com/v1/chat/completions'',
            str ''gpt-3.5-turbo'') \<in>
      {(str ''openai'', str ''https://api.openai.com/v1/chat/completions'', str ''gpt-3.5-turbo''),
       (str ''gemini'', str ''https://generativelanguage.googleapis.com/v1beta/models'',
        str ''gemini-pro''),
       (str ''ollama'', str ''http://localhost:11434/api/generate'', str ''llama2'')}"
    by simp
  have e: "?env (str ''AI_PROVIDER'') = Some (str ''openai'')
      \<or> str ''openai'' = str ''ollama''
        \<and> (?env (str ''AI_PROVIDER'') = None \<or> ?env (str ''AI_PROVIDER'') = Some [])"
    by (simp add: str_eq_iff)
  have k: "Getenv ?env (str ''AI_API_KEY'') = str ''sk-1''"
    by (simp add: Getenv_def str_eq_iff)
  have o: "str ''openai'' \<noteq> str ''ollama''"
    by (simp add: str_eq_iff)
  from empty_override_is_absent
    [where env = ?env and env' = Map.empty and key = "str ''AI_MODEL''", OF t e]
  show ?thesis
    by (simp only: k o if_False simp_thms)
qed

end
